theory Spec2Isabelle
  imports Main "HOL-Library.Char_ord" "HOL-Library.List_Lexorder"
begin

section \<open>Values and text helpers\<close>

text \<open>
  The dashboard keeps its directory extract in pandas data frames whose cells are
  Python objects. A cell is modelled as text, an integer (Python's booleans are the
  integers 0 and 1), \<open>None\<close>, or the floating-point NaN that pandas stores for an absent
  value. Text is a list of characters, one \<open>char\<close> per code point.
\<close>

datatype cell = StrV string | IntV int | NoneV | NaN

datatype error = KeyError | TypeError | IndexError

text \<open>Python's \<open>not x\<close>: the empty string, zero and \<open>None\<close> are falsy, NaN is truthy.\<close>

fun falsy :: "cell \<Rightarrow> bool" where
  "falsy (StrV s) = (s = [])"
| "falsy (IntV n) = (n = 0)"
| "falsy NoneV = True"
| "falsy NaN = False"

text \<open>\<open>'*' * n\<close>\<close>

definition stars :: "nat \<Rightarrow> string" where
  "stars n = replicate n CHR ''*''"

text \<open>\<open>needle in haystack\<close> for strings: \<open>needle\<close> occurs as a contiguous block.\<close>

fun starts_with :: "string \<Rightarrow> string \<Rightarrow> bool" where
  "starts_with [] ys = True"
| "starts_with (x # xs) [] = False"
| "starts_with (x # xs) (y # ys) = (x = y \<and> starts_with xs ys)"

fun str_in :: "string \<Rightarrow> string \<Rightarrow> bool" where
  "str_in needle [] = (needle = [])"
| "str_in needle (y # ys) = (starts_with needle (y # ys) \<or> str_in needle ys)"

text \<open>
  \<open>str.lower()\<close> on the ASCII letters; other characters are left as they are (the
  column names of the directory extract are ASCII).
\<close>

definition lower_char :: "char \<Rightarrow> char" where
  "lower_char c =
     (if CHR ''A'' \<le> c \<and> c \<le> CHR ''Z'' then char_of (of_char c + (32::nat)) else c)"

definition lower :: "string \<Rightarrow> string" where
  "lower s = map lower_char s"

text \<open>\<open>re.sub(r'\D', '', s)\<close>: keep the decimal digits only.\<close>

definition is_digit :: "char \<Rightarrow> bool" where
  "is_digit c = (CHR ''0'' \<le> c \<and> c \<le> CHR ''9'')"

definition digits_of :: "string \<Rightarrow> string" where
  "digits_of s = filter is_digit s"

text \<open>\<open>s.split('@', 1)\<close> and \<open>s.split('@')[0]\<close> on a string that contains \<open>@\<close>.\<close>

definition before_at :: "string \<Rightarrow> string" where
  "before_at s = takeWhile (\<lambda>c. c \<noteq> CHR ''@'') s"

definition after_at :: "string \<Rightarrow> string" where
  "after_at s = tl (dropWhile (\<lambda>c. c \<noteq> CHR ''@'') s)"

section \<open>Field masking (\<open>DataSecurityManager\<close>)\<close>

text \<open>
  The three masking functions are applied to the cells of a column, so they receive
  whatever object the cell holds. A falsy object is returned as it is; a truthy object
  that is not text makes \<open>'@' not in email\<close>, \<open>re.sub\<close> or \<open>len\<close> raise
  \<open>TypeError\<close>.
\<close>

fun mask_email :: "cell \<Rightarrow> error + cell" where
  "mask_email (StrV email) =
     (if email = [] \<or> CHR ''@'' \<notin> set email then Inr (StrV email)
      else
        let username = before_at email;
            domain = after_at email;
            masked_username =
              (if length username \<le> 2 then stars (length username)
               else hd username # stars (length username - 2) @ [last username])
        in Inr (StrV (masked_username @ ''@'' @ domain)))"
| "mask_email c = (if falsy c then Inr c else Inl TypeError)"

fun mask_phone :: "cell \<Rightarrow> error + cell" where
  "mask_phone (StrV phone) =
     (if phone = [] then Inr (StrV phone)
      else
        let digits = digits_of phone
        in if length digits \<ge> 10
           then Inr (StrV (''***-***-'' @ drop (length digits - 4) digits))
           else Inr (StrV ''***-****''))"
| "mask_phone c = (if falsy c then Inr c else Inl TypeError)"

fun mask_employee_id :: "cell \<Rightarrow> error + cell" where
  "mask_employee_id (StrV emp_id) =
     (if emp_id = [] then Inr (StrV emp_id)
      else if length emp_id \<le> 3 then Inr (StrV (stars (length emp_id)))
      else Inr (StrV (take 2 emp_id @ stars (length emp_id - 3) @ [last emp_id])))"
| "mask_employee_id c = (if falsy c then Inr c else Inl TypeError)"

section \<open>Data frames and the object store\<close>

text \<open>
  A data frame has an ordered header, rows that carry their index label, and the
  \<open>attrs\<close> dictionary, of which only the key \<open>export_info\<close> is ever used. Column names
  are taken to be distinct, as they are in the directory extract; a column is found by
  its name. Frames are Python objects: a variable holds a reference, \<open>df.copy()\<close>
  creates a new object, and an assignment \<open>df[column] = ...\<close> changes the object that
  every holder of the reference sees. The store lists the frames created so far and a
  reference is a position in it.
\<close>

record export_info =
  exported_by :: string
  export_time :: int
  data_classification :: string

record dataframe =
  columns :: "string list"
  rows :: "(nat \<times> cell list) list"
  attrs :: "export_info option"

type_synonym ref = nat
type_synonym store = "dataframe list"

definition new_object :: "store \<Rightarrow> dataframe \<Rightarrow> ref \<times> store" where
  "new_object h d = (length h, h @ [d])"

text \<open>\<open>df.copy()\<close>\<close>

definition copy_df :: "store \<Rightarrow> ref \<Rightarrow> ref \<times> store" where
  "copy_df h df = new_object h (h ! df)"

fun index_of :: "'a \<Rightarrow> 'a list \<Rightarrow> nat option" where
  "index_of x [] = None"
| "index_of x (y # ys) =
     (if x = y then Some 0 else map_option Suc (index_of x ys))"

text \<open>The cell of a row at a column position (every row of a frame has all columns).\<close>

definition cell_at :: "nat \<times> cell list \<Rightarrow> nat \<Rightarrow> cell" where
  "cell_at row j = (if j < length (snd row) then snd row ! j else NaN)"

text \<open>\<open>df[name]\<close>: the cells of a column, \<open>KeyError\<close> when there is no such column.\<close>

definition getcol :: "dataframe \<Rightarrow> string \<Rightarrow> error + cell list" where
  "getcol d name =
     (case index_of name (columns d) of
        None \<Rightarrow> Inl KeyError
      | Some j \<Rightarrow> Inr (map (\<lambda>row. cell_at row j) (rows d)))"

text \<open>\<open>df[name] = values\<close>: replace the cells of an existing column, in row order.\<close>

definition setcol :: "dataframe \<Rightarrow> string \<Rightarrow> cell list \<Rightarrow> dataframe" where
  "setcol d name vs =
     (case index_of name (columns d) of
        None \<Rightarrow> d
      | Some j \<Rightarrow>
          d\<lparr>rows := map (\<lambda>(row, v). (fst row, (snd row)[j := v])) (zip (rows d) vs)\<rparr>)"

text \<open>\<open>series == text\<close>, \<open>a | b\<close>, \<open>series.isin(values)\<close>, \<open>series[mask]\<close>, \<open>df[mask]\<close>\<close>

definition series_eq :: "cell list \<Rightarrow> string \<Rightarrow> bool list" where
  "series_eq s u = map (\<lambda>c. c = StrV u) s"

definition series_or :: "bool list \<Rightarrow> bool list \<Rightarrow> bool list" where
  "series_or a b = map (\<lambda>(x, y). x \<or> y) (zip a b)"

definition isin :: "cell list \<Rightarrow> cell list \<Rightarrow> bool list" where
  "isin s vs = map (\<lambda>c. c \<in> set vs) s"

definition select :: "bool list \<Rightarrow> 'a list \<Rightarrow> 'a list" where
  "select flags xs = map fst (filter snd (zip xs flags))"

definition select_rows :: "dataframe \<Rightarrow> bool list \<Rightarrow> dataframe" where
  "select_rows d flags = d\<lparr>rows := select flags (rows d)\<rparr>"

text \<open>\<open>df.drop(columns=names)\<close>\<close>

definition drop_columns :: "dataframe \<Rightarrow> string list \<Rightarrow> dataframe" where
  "drop_columns d names =
     (let keep = map (\<lambda>c. c \<notin> set names) (columns d)
      in d\<lparr>columns := select keep (columns d),
           rows := map (\<lambda>row. (fst row, select keep (snd row))) (rows d)\<rparr>)"

text \<open>\<open>series.apply(f)\<close>: the first exception raised by \<open>f\<close> ends the call.\<close>

fun apply_series :: "(cell \<Rightarrow> error + cell) \<Rightarrow> cell list \<Rightarrow> error + cell list" where
  "apply_series f [] = Inr []"
| "apply_series f (c # cs) =
     (case f c of
        Inl e \<Rightarrow> Inl e
      | Inr v \<Rightarrow> (case apply_series f cs of Inl e \<Rightarrow> Inl e | Inr vs \<Rightarrow> Inr (v # vs)))"

subsection \<open>Grouping\<close>

text \<open>
  pandas treats \<open>None\<close> and NaN as missing: \<open>groupby\<close> leaves rows with a missing key
  out, \<open>count\<close> and \<open>mode\<close> skip missing values. Group keys come out sorted, numbers
  before text when a column mixes them. \<open>mode\<close> returns the most frequent values,
  sorted when they can be compared and in order of first appearance otherwise.
\<close>

fun isna :: "cell \<Rightarrow> bool" where
  "isna NoneV = True"
| "isna NaN = True"
| "isna c = False"

fun ints_of :: "cell list \<Rightarrow> int list" where
  "ints_of [] = []"
| "ints_of (IntV n # cs) = n # ints_of cs"
| "ints_of (c # cs) = ints_of cs"

fun strs_of :: "cell list \<Rightarrow> string list" where
  "strs_of [] = []"
| "strs_of (StrV s # cs) = s # strs_of cs"
| "strs_of (c # cs) = strs_of cs"

definition sort_cells :: "cell list \<Rightarrow> cell list" where
  "sort_cells cs = map IntV (sort (ints_of cs)) @ map StrV (sort (strs_of cs))"

definition group_keys :: "cell list \<Rightarrow> cell list" where
  "group_keys key_col = sort_cells (remdups (filter (\<lambda>c. \<not> isna c) key_col))"

definition count_notna :: "cell list \<Rightarrow> int" where
  "count_notna s = int (length (filter (\<lambda>c. \<not> isna c) s))"

definition mode :: "cell list \<Rightarrow> cell list" where
  "mode s =
     (let vs = filter (\<lambda>c. \<not> isna c) s;
          ks = rev (remdups (rev vs));
          top = fold max (map (count_list vs) ks) 0;
          best = filter (\<lambda>k. count_list vs k = top) ks
      in if ints_of best = [] \<or> strs_of best = [] then sort_cells best else best)"

section \<open>Role-based masking and filtering (\<open>DataSecurityManager\<close>)\<close>

definition email_fields :: "string list" where
  "email_fields = [''email'', ''mail'']"

definition phone_fields :: "string list" where
  "phone_fields = [''phone'', ''telephone'', ''mobile'']"

definition employee_id_fields :: "string list" where
  "employee_id_fields = [''employee_id'', ''employeeNumber'', ''workerId'']"

text \<open>\<open>any(field in column.lower() for field in fields)\<close>\<close>

definition matches_any :: "string list \<Rightarrow> string \<Rightarrow> bool" where
  "matches_any field_names column = list_ex (\<lambda>field. str_in field (lower column)) field_names"

text \<open>Which masking function a column gets: for viewers and auditors, and for managers.\<close>

definition viewer_mask :: "string \<Rightarrow> (cell \<Rightarrow> error + cell) option" where
  "viewer_mask column =
     (if matches_any email_fields column then Some mask_email
      else if matches_any phone_fields column then Some mask_phone
      else if matches_any employee_id_fields column then Some mask_employee_id
      else None)"

definition manager_mask :: "string \<Rightarrow> (cell \<Rightarrow> error + cell) option" where
  "manager_mask column =
     (if matches_any phone_fields column then Some mask_phone else None)"

text \<open>
  The loop \<open>for column in masked_df.columns\<close>: each selected column of the object
  \<open>masked_df\<close> is overwritten in the store; an exception leaves the loop with the
  columns masked so far.
\<close>

fun mask_loop ::
  "(string \<Rightarrow> (cell \<Rightarrow> error + cell) option) \<Rightarrow> store \<Rightarrow> ref \<Rightarrow> string list
     \<Rightarrow> error option \<times> store" where
  "mask_loop pick h masked_df [] = (None, h)"
| "mask_loop pick h masked_df (column # rest) =
     (case pick column of
        None \<Rightarrow> mask_loop pick h masked_df rest
      | Some f \<Rightarrow>
          (case getcol (h ! masked_df) column of
             Inl e \<Rightarrow> (Some e, h)
           | Inr s \<Rightarrow>
               (case apply_series f s of
                  Inl e \<Rightarrow> (Some e, h)
                | Inr vs \<Rightarrow>
                    mask_loop pick (h[masked_df := setcol (h ! masked_df) column vs])
                      masked_df rest)))"

definition apply_data_masking :: "store \<Rightarrow> ref \<Rightarrow> string \<Rightarrow> (error + ref) \<times> store" where
  "apply_data_masking h df user_role =
     (if user_role = ''admin'' then (Inr df, h)
      else
        case copy_df h df of (masked_df, h1) \<Rightarrow>
          if user_role \<in> set [''viewer'', ''auditor''] then
            (case mask_loop viewer_mask h1 masked_df (columns (h1 ! masked_df)) of
               (Some e, h2) \<Rightarrow> (Inl e, h2)
             | (None, h2) \<Rightarrow> (Inr masked_df, h2))
          else if user_role = ''manager'' then
            (case mask_loop manager_mask h1 masked_df (columns (h1 ! masked_df)) of
               (Some e, h2) \<Rightarrow> (Inl e, h2)
             | (None, h2) \<Rightarrow> (Inr masked_df, h2))
          else (Inr masked_df, h1))"

text \<open>
  The manager's team: rows whose manager is the user, the user's own row, and rows whose
  manager is among the uids of the rows that report to the user.
\<close>

definition team_of :: "dataframe \<Rightarrow> string \<Rightarrow> error + dataframe" where
  "team_of filtered_df user_uid =
     (case getcol filtered_df ''manager'' of
        Inl e \<Rightarrow> Inl e
      | Inr manager_col \<Rightarrow>
          (case getcol filtered_df ''uid'' of
             Inl e \<Rightarrow> Inl e
           | Inr uid_col \<Rightarrow>
               let team_filter =
                     series_or (series_eq manager_col user_uid) (series_eq uid_col user_uid);
                   direct_reports = select (series_eq manager_col user_uid) uid_col;
                   team_filter =
                     (if direct_reports \<noteq> []
                      then series_or team_filter (isin manager_col direct_reports)
                      else team_filter)
               in Inr (select_rows filtered_df team_filter)))"

text \<open>
  \<open>groupby('department').agg({'uid': 'count', 'seniority_level': mode or 'Unknown'})\<close>
  followed by \<open>reset_index()\<close> and the renaming of the three columns.
\<close>

definition common_seniority :: "cell list \<Rightarrow> cell" where
  "common_seniority x = (case mode x of [] \<Rightarrow> StrV ''Unknown'' | m # _ \<Rightarrow> m)"

definition dept_stats :: "dataframe \<Rightarrow> error + dataframe" where
  "dept_stats filtered_df =
     (case getcol filtered_df ''department'' of
        Inl e \<Rightarrow> Inl e
      | Inr dept_col \<Rightarrow>
          (case getcol filtered_df ''uid'' of
             Inl e \<Rightarrow> Inl e
           | Inr uid_col \<Rightarrow>
               (case getcol filtered_df ''seniority_level'' of
                  Inl e \<Rightarrow> Inl e
                | Inr seniority_col \<Rightarrow>
                    let stats =
                          map (\<lambda>k.
                                 let members = map (\<lambda>c. c = k) dept_col
                                 in [k, IntV (count_notna (select members uid_col)),
                                     common_seniority (select members seniority_col)])
                              (group_keys dept_col)
                    in Inr \<lparr>columns = [''Department'', ''Team_Size'', ''Common_Seniority''],
                            rows = zip [0 ..< length stats] stats,
                            attrs = None\<rparr>)))"

definition filter_data_by_access_level ::
  "store \<Rightarrow> ref \<Rightarrow> string \<Rightarrow> (string \<rightharpoonup> string) \<Rightarrow> (error + ref) \<times> store" where
  "filter_data_by_access_level h df user_role user_context =
     (if user_role = ''admin'' then (Inr df, h)
      else
        case copy_df h df of (filtered_df, h1) \<Rightarrow>
          if user_role = ''manager'' then
            let user_email = (case user_context ''email'' of None \<Rightarrow> [] | Some e \<Rightarrow> e);
                user_uid = (if CHR ''@'' \<in> set user_email then before_at user_email else [])
            in if ''manager'' \<in> set (columns (h1 ! filtered_df)) then
                 (case team_of (h1 ! filtered_df) user_uid of
                    Inl e \<Rightarrow> (Inl e, h1)
                  | Inr team \<Rightarrow>
                      (case new_object h1 team of (filtered_df, h2) \<Rightarrow> (Inr filtered_df, h2)))
               else (Inr filtered_df, h1)
          else if user_role = ''viewer'' then
            if length (rows (h1 ! filtered_df)) > 0 then
              if ''department'' \<in> set (columns (h1 ! filtered_df)) then
                (case dept_stats (h1 ! filtered_df) of
                   Inl e \<Rightarrow> (Inl e, h1)
                 | Inr stats \<Rightarrow>
                     (case new_object h1 stats of (stats_df, h2) \<Rightarrow> (Inr stats_df, h2)))
              else (Inr filtered_df, h1)
            else (Inr filtered_df, h1)
          else (Inr filtered_df, h1))"

text \<open>
  \<open>sanitize_export_data\<close>: copy, drop the internal columns, mask for the role, and for a
  CSV export stamp the provenance into \<open>attrs\<close> of the frame that is returned.
\<close>

definition internal_fields :: "string list" where
  "internal_fields = [''password'', ''hash'', ''session'', ''token'', ''secret'']"

definition sanitize_export_data ::
  "store \<Rightarrow> int \<Rightarrow> ref \<Rightarrow> string \<Rightarrow> string \<Rightarrow> (error + ref) \<times> store" where
  "sanitize_export_data h now df export_format user_role =
     (case copy_df h df of (sanitized_df, h1) \<Rightarrow>
        let columns_to_remove =
              filter (matches_any internal_fields) (columns (h1 ! sanitized_df))
        in case (if columns_to_remove \<noteq> []
                 then new_object h1 (drop_columns (h1 ! sanitized_df) columns_to_remove)
                 else (sanitized_df, h1)) of
             (sanitized_df, h2) \<Rightarrow>
               (case apply_data_masking h2 sanitized_df user_role of
                  (Inl e, h3) \<Rightarrow> (Inl e, h3)
                | (Inr sanitized_df, h3) \<Rightarrow>
                    if lower export_format = ''csv'' then
                      (Inr sanitized_df,
                       h3[sanitized_df := (h3 ! sanitized_df)
                            \<lparr>attrs := Some \<lparr>exported_by = user_role, export_time = now,
                                data_classification = ''CONFIDENTIAL - Red Hat Internal''\<rparr>\<rparr>])
                    else (Inr sanitized_df, h3)))"

definition permission_map :: "string \<rightharpoonup> string list" where
  "permission_map =
     [''people_data'' \<mapsto> [''view_all'', ''view_team''],
      ''org_chart'' \<mapsto> [''view_all'', ''view_team'', ''view_reports''],
      ''analytics'' \<mapsto> [''view_all'', ''view_reports''],
      ''export'' \<mapsto> [''export_data''],
      ''audit_logs'' \<mapsto> [''view_audit'', ''admin'']]"

definition check_data_access_permission :: "string \<Rightarrow> string \<Rightarrow> string list \<Rightarrow> bool" where
  "check_data_access_permission data_type user_role user_permissions =
     (let required_permissions =
            (case permission_map data_type of None \<Rightarrow> [''view_all''] | Some ps \<Rightarrow> ps)
      in list_ex (\<lambda>perm. perm \<in> set user_permissions) required_permissions)"

section \<open>The running application: session state, screen and audit log\<close>

text \<open>
  The Streamlit session state, the messages put on the screen and the audit log file
  are the state the handlers work on. Time is read from the clock in seconds and is an
  argument of the handlers. Messages are kept without their pictograms and without the
  status code or exception text that some of them append.
\<close>

record user =
  full_name :: string
  role :: string
  permissions :: "string list"

record jwt_payload =
  p_email :: "string option"
  p_exp :: "int option"
  p_iat :: "int option"

text \<open>
  A token string is either not a JWT at all, or a signed JWT: the key and algorithm it
  was signed with and its payload. A signature verifies under a key exactly when the
  token was signed with that key.
\<close>

datatype token = Garbage string | Jws string string jwt_payload

record sso_session =
  s_email :: string
  s_name :: string
  s_username :: string
  s_role :: string
  s_permissions :: "string list"
  s_groups :: "string list"
  sso_sub :: string
  session_start :: int
  s_access_token :: "string option"
  s_refresh_token :: "string option"
  expires_at :: int

datatype detail = DStr string | DBool bool | DInt int | DDict "(string \<times> detail) list"

record audit_context =
  ctx_user_email :: string
  ctx_user_name :: string
  ctx_user_role :: string
  ctx_session_id :: string
  timestamp :: int
  user_agent :: string
  ip_address :: string

record audit_record =
  event_type :: string
  principal_context :: audit_context
  details :: "(string \<times> detail) list"
  severity :: string
  log_level :: string

datatype ui = UiError string | UiSuccess string | UiDownload dataframe

record world =
  session_user :: "user option"
  auth_token :: "token option"
  session_id :: "string option"
  oauth_state :: "string option"
  oauth_nonce :: "string option"
  oauth_code_verifier :: "string option"
  sso_user :: "sso_session option"
  screen :: "ui list"
  audit_log :: "audit_record list"

definition st_error :: "world \<Rightarrow> string \<Rightarrow> world" where
  "st_error w msg = w\<lparr>screen := screen w @ [UiError msg]\<rparr>"

definition st_success :: "world \<Rightarrow> string \<Rightarrow> world" where
  "st_success w msg = w\<lparr>screen := screen w @ [UiSuccess msg]\<rparr>"

section \<open>Audit logging (\<open>AuditLogger\<close>)\<close>

definition upper_char :: "char \<Rightarrow> char" where
  "upper_char c =
     (if CHR ''a'' \<le> c \<and> c \<le> CHR ''z'' then char_of (of_char c - (32::nat)) else c)"

definition upper :: "string \<Rightarrow> string" where
  "upper s = map upper_char s"

text \<open>
  The user dictionaries kept in the session carry a name, a role and permissions but no
  \<open>email\<close> key, so the context always reads \<open>anonymous\<close> there.
\<close>

definition get_user_context :: "world \<Rightarrow> int \<Rightarrow> audit_context" where
  "get_user_context w now =
     \<lparr>ctx_user_email = ''anonymous'',
      ctx_user_name = (case session_user w of None \<Rightarrow> ''Unknown'' | Some u \<Rightarrow> full_name u),
      ctx_user_role = (case session_user w of None \<Rightarrow> ''none'' | Some u \<Rightarrow> role u),
      ctx_session_id = (case session_id w of None \<Rightarrow> ''unknown'' | Some s \<Rightarrow> s),
      timestamp = now,
      user_agent = ''Streamlit Dashboard'',
      ip_address = ''localhost''\<rparr>"

text \<open>
  \<open>log_event\<close> writes one record. The logger and its file handler are set to level
  INFO and the four methods used are at or above it, so every record reaches the file.
\<close>

definition log_event ::
  "world \<Rightarrow> int \<Rightarrow> string \<Rightarrow> (string \<times> detail) list \<Rightarrow> string \<Rightarrow> world" where
  "log_event w now etype dets level =
     (let context = get_user_context w now;
          rec = \<lparr>event_type = etype, principal_context = context, details = dets,
                 severity = level,
                 log_level =
                   (if upper level = ''WARNING'' then ''WARNING''
                    else if upper level = ''ERROR'' then ''ERROR''
                    else if upper level = ''CRITICAL'' then ''CRITICAL''
                    else ''INFO'')\<rparr>
      in w\<lparr>audit_log := audit_log w @ [rec]\<rparr>)"

definition log_login_attempt :: "world \<Rightarrow> int \<Rightarrow> string \<Rightarrow> bool \<Rightarrow> string \<Rightarrow> world" where
  "log_login_attempt w now email success ip =
     log_event w now ''LOGIN_ATTEMPT''
       [(''email'', DStr email), (''success'', DBool success), (''ip_address'', DStr ip)]
       (if \<not> success then ''WARNING'' else ''INFO'')"

definition log_data_access ::
  "world \<Rightarrow> int \<Rightarrow> string \<Rightarrow> (string \<times> detail) list \<Rightarrow> world" where
  "log_data_access w now data_type filters =
     log_event w now ''DATA_ACCESS''
       [(''data_type'', DStr data_type), (''filters'', DDict filters), (''action'', DStr ''view'')]
       ''INFO''"

definition log_data_export :: "world \<Rightarrow> int \<Rightarrow> string \<Rightarrow> int \<Rightarrow> string \<Rightarrow> world" where
  "log_data_export w now data_type record_count export_format =
     log_event w now ''DATA_EXPORT''
       [(''data_type'', DStr data_type), (''record_count'', DInt record_count),
        (''export_format'', DStr export_format)]
       ''WARNING''"

definition log_security_event :: "world \<Rightarrow> int \<Rightarrow> string \<Rightarrow> string \<Rightarrow> world" where
  "log_security_event w now event_description sev =
     log_event w now ''SECURITY_EVENT''
       [(''description'', DStr event_description),
        (''requires_investigation'', DBool (sev \<in> set [''ERROR'', ''CRITICAL'']))]
       sev"

definition log_session_activity ::
  "world \<Rightarrow> int \<Rightarrow> string \<Rightarrow> (string \<times> detail) list \<Rightarrow> world" where
  "log_session_activity w now activity dets =
     log_event w now ''SESSION_ACTIVITY''
       [(''activity'', DStr activity), (''details'', DDict dets)]
       ''INFO''"

section \<open>Local authentication (\<open>DashboardAuth\<close>)\<close>

record auth_config =
  secret_key :: string
  session_timeout :: int

definition authorized_users :: "string \<rightharpoonup> user" where
  "authorized_users =
     [''crizzo@redhat.com'' \<mapsto>
        \<lparr>full_name = ''Christine Rizzo'', role = ''admin'',
         permissions = [''view_all'', ''export_data'', ''manage_users'']\<rparr>,
      ''demo@redhat.com'' \<mapsto>
        \<lparr>full_name = ''Demo User'', role = ''viewer'',
         permissions = [''view_team'', ''view_reports'']\<rparr>]"

definition demo_passwords :: "string \<rightharpoonup> string" where
  "demo_passwords =
     [''crizzo@redhat.com'' \<mapsto> ''admin123'', ''demo@redhat.com'' \<mapsto> ''demo123'']"

definition check_password :: "string \<Rightarrow> string \<Rightarrow> bool" where
  "check_password email password =
     (if email \<in> dom authorized_users then demo_passwords email = Some password else False)"

definition create_session_token :: "auth_config \<Rightarrow> int \<Rightarrow> string \<Rightarrow> token" where
  "create_session_token cfg now user_email =
     Jws (secret_key cfg) ''HS256''
       \<lparr>p_email = Some user_email,
        p_exp = Some (now + 60 * session_timeout cfg),
        p_iat = Some now\<rparr>"

text \<open>
  \<open>jwt.decode(token, key, algorithms=['HS256'])\<close> of the PyJWT library: the token must
  parse, name an allowed algorithm and carry a signature made with \<open>key\<close>; then an
  \<open>iat\<close> in the future is refused (as current versions of the library do) and an
  \<open>exp\<close> that is not after the current time raises \<open>ExpiredSignatureError\<close>, which is
  itself an \<open>InvalidTokenError\<close> that the caller catches first.
\<close>

datatype jwt_error = ExpiredSignatureError | InvalidTokenError

definition jwt_decode :: "token \<Rightarrow> string \<Rightarrow> string list \<Rightarrow> int \<Rightarrow> jwt_error + jwt_payload" where
  "jwt_decode tok key algorithms now =
     (case tok of
        Garbage s \<Rightarrow> Inl InvalidTokenError
      | Jws k alg payload \<Rightarrow>
          if alg \<notin> set algorithms then Inl InvalidTokenError
          else if k \<noteq> key then Inl InvalidTokenError
          else if (case p_iat payload of None \<Rightarrow> False | Some t \<Rightarrow> now < t)
               then Inl InvalidTokenError
          else if (case p_exp payload of None \<Rightarrow> False | Some t \<Rightarrow> t \<le> now)
               then Inl ExpiredSignatureError
          else Inr payload)"

definition verify_session_token ::
  "auth_config \<Rightarrow> world \<Rightarrow> int \<Rightarrow> token \<Rightarrow> user option \<times> world" where
  "verify_session_token cfg w now tok =
     (case jwt_decode tok (secret_key cfg) [''HS256''] now of
        Inr payload \<Rightarrow>
          (case p_email payload of
             None \<Rightarrow> (None, w)
           | Some user_email \<Rightarrow>
               if user_email \<in> dom authorized_users
               then (authorized_users user_email, w)
               else (None, w))
      | Inl ExpiredSignatureError \<Rightarrow>
          (None, st_error w ''Session expired. Please log in again.'')
      | Inl InvalidTokenError \<Rightarrow>
          (None, st_error w ''Invalid session. Please log in again.''))"

definition check_permission :: "user \<Rightarrow> string \<Rightarrow> bool" where
  "check_permission u required_permission = (required_permission \<in> set (permissions u))"

text \<open>
  \<open>login_form\<close>: the form is drawn; when it was submitted with an email and a password
  the credentials are checked. On success the token and the user are stored, a welcome
  is shown and the script is rerun; otherwise an error is shown.
\<close>

definition login_form ::
  "auth_config \<Rightarrow> world \<Rightarrow> int \<Rightarrow> (string \<times> string) option \<Rightarrow> world" where
  "login_form cfg w now submitted =
     (case submitted of
        None \<Rightarrow> w
      | Some (email, password) \<Rightarrow>
          if check_password email password then
            let tok = create_session_token cfg now email;
                w1 = w\<lparr>auth_token := Some tok\<rparr>;
                w2 = w1\<lparr>session_user := authorized_users email\<rparr>
            in st_success w2
                 (''Welcome, '' @ (case authorized_users email of
                                      None \<Rightarrow> [] | Some u \<Rightarrow> full_name u) @ ''!'')
          else st_error w ''Invalid credentials'')"

section \<open>Secure export (\<open>secure_dashboard.create_secure_export\<close>)\<close>

definition create_secure_export ::
  "world \<Rightarrow> store \<Rightarrow> int \<Rightarrow> ref \<Rightarrow> string \<Rightarrow> string \<Rightarrow> error option \<times> world \<times> store" where
  "create_secure_export w h now df export_format user_role =
     (if \<not> check_data_access_permission ''export'' user_role
             (case session_user w of None \<Rightarrow> [] | Some u \<Rightarrow> permissions u)
      then (None, st_error w ''You don't have permission to export data'', h)
      else
        case sanitize_export_data h now df export_format user_role of
          (Inl e, h1) \<Rightarrow> (Some e, w, h1)
        | (Inr sanitized_df, h1) \<Rightarrow>
            let w1 = log_data_export w now ''people_data''
                       (int (length (rows (h1 ! sanitized_df)))) export_format
            in if lower export_format = ''csv''
               then (None, w1\<lparr>screen := screen w1 @ [UiDownload (h1 ! sanitized_df)]\<rparr>, h1)
               else (None, w1, h1))"

section \<open>Federated authentication (\<open>RedHatSSOAuth\<close>)\<close>

text \<open>
  The identity provider answers with JSON objects. Each is a record of the keys the
  code reads, a key that is absent being \<open>None\<close>; the object is empty when all are. A
  call over the network either raises or returns a status code and a body. The provider
  and the parsing of an ID token without signature check are parameters.
\<close>

record token_response =
  access_token :: "string option"
  id_token :: "string option"
  refresh_token :: "string option"
  expires_in :: "int option"

record user_info =
  info_email :: "string option"
  info_name :: "string option"
  preferred_username :: "string option"
  groups :: "string list option"

record id_claims =
  nonce :: "string option"
  sub :: "string option"
  realm_roles :: "string list option"

datatype 'a http = Raised | Response nat 'a

record provider =
  token_endpoint :: "string \<Rightarrow> string option \<Rightarrow> token_response http"
  userinfo_endpoint :: "string \<Rightarrow> user_info http"
  decode_unverified :: "string \<Rightarrow> id_claims option"

definition empty_tokens :: "token_response \<Rightarrow> bool" where
  "empty_tokens t =
     (access_token t = None \<and> id_token t = None \<and> refresh_token t = None
      \<and> expires_in t = None)"

definition empty_info :: "user_info \<Rightarrow> bool" where
  "empty_info u =
     (info_email u = None \<and> info_name u = None \<and> preferred_username u = None
      \<and> groups u = None)"

definition empty_claims :: "id_claims \<Rightarrow> bool" where
  "empty_claims c = (nonce c = None \<and> sub c = None \<and> realm_roles c = None)"

text \<open>\<open>s[0]\<close> on a string: its first character, as a string of length one.\<close>

definition first_char :: "string \<Rightarrow> error + string" where
  "first_char s = (case s of [] \<Rightarrow> Inl IndexError | c # _ \<Rightarrow> Inr [c])"

definition exchange_code_for_tokens ::
  "provider \<Rightarrow> world \<Rightarrow> string \<Rightarrow> string \<Rightarrow> token_response option \<times> world" where
  "exchange_code_for_tokens idp w authorization_code state =
     (if Some state \<noteq> oauth_state w
      then (None, st_error w ''Invalid OAuth state parameter'')
      else
        case token_endpoint idp authorization_code (oauth_code_verifier w) of
          Raised \<Rightarrow> (None, st_error w ''Error exchanging code for token'')
        | Response status_code body \<Rightarrow>
            if status_code = 200 then (Some body, w)
            else (None, st_error w ''Token exchange failed''))"

definition get_user_info ::
  "provider \<Rightarrow> world \<Rightarrow> string \<Rightarrow> user_info option \<times> world" where
  "get_user_info idp w token =
     (case userinfo_endpoint idp token of
        Raised \<Rightarrow> (None, st_error w ''Error getting user info'')
      | Response status_code body \<Rightarrow>
          if status_code = 200 then (Some body, w)
          else (None, st_error w ''Failed to get user info''))"

definition verify_jwt_token ::
  "provider \<Rightarrow> world \<Rightarrow> string \<Rightarrow> id_claims option \<times> world" where
  "verify_jwt_token idp w token =
     (case decode_unverified idp token of
        None \<Rightarrow> (None, st_error w ''Error verifying ID token'')
      | Some decoded \<Rightarrow>
          if nonce decoded \<noteq> oauth_nonce w
          then (None, st_error w ''Invalid nonce in ID token'')
          else (Some decoded, w))"

definition map_user_roles :: "user_info \<Rightarrow> id_claims \<Rightarrow> string" where
  "map_user_roles info claims =
     (let roles = (case realm_roles claims of None \<Rightarrow> [] | Some rs \<Rightarrow> rs);
          grps = (case groups info of None \<Rightarrow> [] | Some gs \<Rightarrow> gs)
      in if ''ldap-analytics-admin'' \<in> set roles \<or> ''ldap-analytics-admin'' \<in> set grps
         then ''admin''
         else if ''ldap-analytics-manager'' \<in> set roles
                 \<or> ''ldap-analytics-manager'' \<in> set grps
         then ''manager''
         else if ''ldap-analytics-auditor'' \<in> set roles
                 \<or> ''ldap-analytics-auditor'' \<in> set grps
         then ''auditor''
         else ''viewer'')"

definition permissions_map :: "string \<rightharpoonup> string list" where
  "permissions_map =
     [''admin'' \<mapsto> [''view_all'', ''export_data'', ''manage_users'', ''view_audit''],
      ''manager'' \<mapsto> [''view_team'', ''export_data'', ''view_reports''],
      ''auditor'' \<mapsto> [''view_audit'', ''view_reports''],
      ''viewer'' \<mapsto> [''view_team'', ''view_reports'']]"

definition create_user_session ::
  "int \<Rightarrow> user_info \<Rightarrow> id_claims \<Rightarrow> token_response \<Rightarrow> sso_session" where
  "create_user_session now info claims tokens =
     (let the_role = map_user_roles info claims;
          uname = (case preferred_username info of None \<Rightarrow> [] | Some n \<Rightarrow> n)
      in \<lparr>s_email = (case info_email info of None \<Rightarrow> [] | Some e \<Rightarrow> e),
          s_name = (case info_name info of None \<Rightarrow> uname | Some n \<Rightarrow> n),
          s_username = uname,
          s_role = the_role,
          s_permissions = (case permissions_map the_role of None \<Rightarrow> [] | Some ps \<Rightarrow> ps),
          s_groups = (case groups info of None \<Rightarrow> [] | Some gs \<Rightarrow> gs),
          sso_sub = (case sub claims of None \<Rightarrow> [] | Some s \<Rightarrow> s),
          session_start = now,
          s_access_token = access_token tokens,
          s_refresh_token = refresh_token tokens,
          expires_at = now + (case expires_in tokens of None \<Rightarrow> 3600 | Some n \<Rightarrow> n)\<rparr>)"

text \<open>
  \<open>handle_callback\<close>: \<open>st.query_params\<close> maps a name to its value, a string, so
  \<open>query_params['code'][0]\<close> and \<open>query_params['state'][0]\<close> are the first characters of
  the two values. The default for a missing \<open>error_description\<close> is the list \<open>['']\<close>, whose
  element 0 is the empty string. The three pending-flow entries are deleted on the path
  that returns a user session, and only there.
\<close>

definition handle_callback ::
  "provider \<Rightarrow> world \<Rightarrow> int \<Rightarrow> (string \<rightharpoonup> string)
     \<Rightarrow> (error + sso_session option) \<times> world" where
  "handle_callback idp w now query_params =
     (case (query_params ''code'', query_params ''state'') of
        (Some code_value, Some state_value) \<Rightarrow>
          (case first_char code_value of
             Inl e \<Rightarrow> (Inl e, w)
           | Inr code \<Rightarrow>
          (case first_char state_value of
             Inl e \<Rightarrow> (Inl e, w)
           | Inr state \<Rightarrow>
          (case exchange_code_for_tokens idp w code state of
             (None, w1) \<Rightarrow> (Inr None, w1)
           | (Some tokens, w1) \<Rightarrow>
               if empty_tokens tokens then (Inr None, w1)
               else
          (case access_token tokens of
             None \<Rightarrow> (Inl KeyError, w1)
           | Some at \<Rightarrow>
          (case get_user_info idp w1 at of
             (None, w2) \<Rightarrow> (Inr None, w2)
           | (Some info, w2) \<Rightarrow>
               if empty_info info then (Inr None, w2)
               else
          (case id_token tokens of
             None \<Rightarrow> (Inl KeyError, w2)
           | Some idt \<Rightarrow>
          (case verify_jwt_token idp w2 idt of
             (None, w3) \<Rightarrow> (Inr None, w3)
           | (Some id_token_claims, w3) \<Rightarrow>
               if empty_claims id_token_claims then (Inr None, w3)
               else
                 let user_session = create_user_session now info id_token_claims tokens
                 in (Inr (Some user_session),
                     w3\<lparr>oauth_state := None, oauth_nonce := None,
                        oauth_code_verifier := None\<rparr>))))))))
      | _ \<Rightarrow>
          (case query_params ''error'' of
             None \<Rightarrow> (Inr None, w)
           | Some error_value \<Rightarrow>
               (case first_char error_value of
                  Inl e \<Rightarrow> (Inl e, w)
                | Inr err \<Rightarrow>
                    (case (case query_params ''error_description'' of
                             None \<Rightarrow> Inr [] | Some ds \<Rightarrow> first_char ds) of
                       Inl e \<Rightarrow> (Inl e, w)
                     | Inr error_description \<Rightarrow>
                         (Inr None,
                          st_error w (''SSO Error: '' @ err @ '' - '' @ error_description))))))"

text \<open>
  The start of \<open>require_sso_auth\<close>: a user session returned by the callback becomes the
  session's \<open>sso_user\<close>.
\<close>

definition require_sso_auth ::
  "provider \<Rightarrow> world \<Rightarrow> int \<Rightarrow> (string \<rightharpoonup> string) \<Rightarrow> error option \<times> world" where
  "require_sso_auth idp w now query_params =
     (case handle_callback idp w now query_params of
        (Inl e, w1) \<Rightarrow> (Some e, w1)
      | (Inr None, w1) \<Rightarrow> (None, w1)
      | (Inr (Some callback_user), w1) \<Rightarrow>
          (None, st_success (w1\<lparr>sso_user := Some callback_user\<rparr>)
                   (''Welcome, '' @ s_name callback_user @ ''!'')))"

section \<open>Reading the frames\<close>

text \<open>
  The cell of a row under a column name, and the uid that the manager branch derives
  from the principal's email (the part before the first \<open>@\<close>, empty when there is no
  \<open>@\<close> or no email).
\<close>

definition field :: "dataframe \<Rightarrow> string \<Rightarrow> nat \<times> cell list \<Rightarrow> cell" where
  "field d name row =
     (case index_of name (columns d) of None \<Rightarrow> NaN | Some j \<Rightarrow> cell_at row j)"

definition local_uid :: "(string \<rightharpoonup> string) \<Rightarrow> string" where
  "local_uid user_context =
     (case user_context ''email'' of
        None \<Rightarrow> []
      | Some e \<Rightarrow> if CHR ''@'' \<in> set e then before_at e else [])"

text \<open>
  A small extract in the shape the collector produces: a reporting chain of four levels
  and one person outside it. A second frame has neither a manager nor a department
  column.
\<close>

definition sample_org :: dataframe where
  "sample_org =
     \<lparr>columns = [''uid'', ''manager'', ''department'', ''seniority_level'', ''email''],
      rows =
        [(0, [StrV ''crizzo'', StrV ''jlaska'', StrV ''Mgmt'', StrV ''Senior'',
              StrV ''crizzo@redhat.com'']),
         (1, [StrV ''ychang'', StrV ''crizzo'', StrV ''QE'', StrV ''Senior'',
              StrV ''ychang@redhat.com'']),
         (2, [StrV ''yisun'', StrV ''ychang'', StrV ''QE'', StrV ''Junior'',
              StrV ''yisun@redhat.com'']),
         (3, [StrV ''intern'', StrV ''yisun'', StrV ''QE'', StrV ''Junior'',
              StrV ''intern@redhat.com'']),
         (4, [StrV ''other'', StrV ''jlaska'', StrV ''Sales'', StrV ''Junior'',
              StrV ''other@redhat.com''])],
      attrs = None\<rparr>"

definition sample_roster :: dataframe where
  "sample_roster =
     \<lparr>columns = [''uid'', ''name''],
      rows = [(0, [StrV ''crizzo'', StrV ''Christine Rizzo'']),
              (1, [StrV ''other'', StrV ''Someone Else''])],
      attrs = None\<rparr>"

definition crizzo_context :: "string \<rightharpoonup> string" where
  "crizzo_context = [''email'' \<mapsto> ''crizzo@redhat.com'']"

text \<open>
  Sample states: the default configuration, a session in which nothing has happened, the
  session of the demo viewer, a session with a federated login under way, a provider
  that honours the code it is sent as \<open>c\<close> together with the verifier of that login, and
  two callbacks: one with a state that was never issued and one with the stored state.
\<close>

definition default_config :: auth_config where
  "default_config = \<lparr>secret_key = ''your-secret-key-change-this'', session_timeout = 60\<rparr>"

definition fresh_world :: world where
  "fresh_world =
     \<lparr>session_user = None, auth_token = None, session_id = None, oauth_state = None,
      oauth_nonce = None, oauth_code_verifier = None, sso_user = None, screen = [],
      audit_log = []\<rparr>"

definition viewer_world :: world where
  "viewer_world = fresh_world\<lparr>session_user := authorized_users ''demo@redhat.com''\<rparr>"

definition pending_world :: world where
  "pending_world =
     fresh_world\<lparr>oauth_state := Some ''S1'', oauth_nonce := Some ''N1'',
                 oauth_code_verifier := Some ''V1''\<rparr>"

definition sample_provider :: provider where
  "sample_provider =
     \<lparr>token_endpoint =
        (\<lambda>code verifier.
           if code = ''c'' \<and> verifier = Some ''V1''
           then Response 200 \<lparr>access_token = Some ''AT'', id_token = Some ''IDT'',
                               refresh_token = Some ''RT'', expires_in = Some 300\<rparr>
           else Response 400 \<lparr>access_token = None, id_token = None,
                               refresh_token = None, expires_in = None\<rparr>),
      userinfo_endpoint =
        (\<lambda>token.
           if token = ''AT''
           then Response 200 \<lparr>info_email = Some ''demo@redhat.com'',
                               info_name = Some ''Demo User'',
                               preferred_username = Some ''demo'', groups = None\<rparr>
           else Response 401 \<lparr>info_email = None, info_name = None,
                               preferred_username = None, groups = None\<rparr>),
      decode_unverified =
        (\<lambda>token.
           if token = ''IDT''
           then Some \<lparr>nonce = Some ''N1'', sub = Some ''u-demo'', realm_roles = None\<rparr>
           else None)\<rparr>"

definition forged_callback :: "string \<rightharpoonup> string" where
  "forged_callback = [''code'' \<mapsto> ''c1'', ''state'' \<mapsto> ''forged'']"

definition genuine_callback :: "string \<rightharpoonup> string" where
  "genuine_callback = [''code'' \<mapsto> ''c1'', ''state'' \<mapsto> ''S1'']"

section \<open>Properties of the masking functions\<close>

lemma before_at_append: "CHR ''@'' \<notin> set u \<Longrightarrow> before_at (u @ CHR ''@'' # d) = u"
  by (induction u) (auto simp: before_at_def)

lemma after_at_append: "CHR ''@'' \<notin> set u \<Longrightarrow> after_at (u @ CHR ''@'' # d) = d"
  by (induction u) (auto simp: after_at_def)

text \<open>
  C7, as the code has it. Every address that contains \<open>@\<close> is \<open>u @ ''@'' @ d\<close> with
  \<open>u\<close> the part before the first \<open>@\<close>. A local part of more than two characters keeps
  its first and last character and has the characters between them replaced by as many
  stars; a local part of one or two characters is replaced by stars entirely; the domain
  is untouched. So \<open>ab@x.com\<close> becomes \<open>**@x.com\<close> and \<open>a@x.com\<close> becomes \<open>*@x.com\<close>.
\<close>

theorem mask_email_local_part:
  "(\<forall>u d. CHR ''@'' \<notin> set u \<longrightarrow>
      mask_email (StrV (u @ ''@'' @ d)) =
        Inr (StrV ((if length u \<le> 2 then replicate (length u) CHR ''*''
                   else hd u # replicate (length u - 2) CHR ''*'' @ [last u]) @ ''@'' @ d)))
   \<and> mask_email (StrV ''ab@x.com'') = Inr (StrV ''**@x.com'')
   \<and> mask_email (StrV ''a@x.com'') = Inr (StrV ''*@x.com'')"
proof (intro conjI allI impI)
  fix u d :: string
  assume u: "CHR ''@'' \<notin> set u"
  show "mask_email (StrV (u @ ''@'' @ d)) =
        Inr (StrV ((if length u \<le> 2 then replicate (length u) CHR ''*''
                   else hd u # replicate (length u - 2) CHR ''*'' @ [last u]) @ ''@'' @ d))"
    using u by (simp add: before_at_append after_at_append stars_def Let_def)
next
  show "mask_email (StrV ''ab@x.com'') = Inr (StrV ''**@x.com'')"
    by (simp add: before_at_def after_at_def stars_def Let_def)
next
  show "mask_email (StrV ''a@x.com'') = Inr (StrV ''*@x.com'')"
    by (simp add: before_at_def after_at_def stars_def Let_def)
qed

theorem mask_email_local_part_witness:
  "CHR ''@'' \<notin> set ''jdoe''
   \<and> mask_email (StrV ''jdoe@redhat.com'') = Inr (StrV ''j**e@redhat.com'')"
proof -
  have h: "CHR ''@'' \<notin> set ''jdoe''" by simp
  from mask_email_local_part
  have "CHR ''@'' \<notin> set ''jdoe'' \<longrightarrow>
      mask_email (StrV (''jdoe'' @ ''@'' @ ''redhat.com'')) =
        Inr (StrV ((if length ''jdoe'' \<le> 2 then replicate (length ''jdoe'') CHR ''*''
                   else hd ''jdoe'' # replicate (length ''jdoe'' - 2) CHR ''*'' @ [last ''jdoe''])
                  @ ''@'' @ ''redhat.com''))"
    by blast
  with h show ?thesis by (simp add: numeral_2_eq_2)
qed

text \<open>
  The spec's example for a two-character local part does not hold: the first character
  of \<open>ab@x.com\<close> is not kept.
\<close>

theorem mask_email_ab_counterexample:
  "mask_email (StrV ''ab@x.com'') \<noteq> Inr (StrV ''a*@x.com'')"
  by (simp add: before_at_def after_at_def stars_def Let_def)

section \<open>Facts about the frame operations\<close>

lemma index_of_None: "index_of x ys = None \<longleftrightarrow> x \<notin> set ys"
  by (induction ys) auto

lemma getcol_field:
  "name \<in> set (columns d) \<Longrightarrow> getcol d name = Inr (map (field d name) (rows d))"
  by (cases "index_of name (columns d)") (auto simp: getcol_def field_def index_of_None)

lemma getcol_missing: "name \<notin> set (columns d) \<Longrightarrow> getcol d name = Inl KeyError"
  by (simp add: getcol_def index_of_None[THEN iffD2])

lemma select_map: "select (map P xs) (map g xs) = map g (filter P xs)"
  by (induction xs) (auto simp: select_def)

lemma select_same: "select (map P xs) xs = filter P xs"
  using select_map[where g=id and P=P and xs=xs] by simp

lemma series_or_map: "series_or (map P xs) (map Q xs) = map (\<lambda>x. P x \<or> Q x) xs"
  by (induction xs) (auto simp: series_or_def)

lemma series_eq_map: "series_eq (map f xs) u = map (\<lambda>x. f x = StrV u) xs"
  by (simp add: series_eq_def)

lemma isin_map: "isin (map f xs) vs = map (\<lambda>x. f x \<in> set vs) xs"
  by (simp add: isin_def)

lemma team_of_rows:
  assumes "''manager'' \<in> set (columns d)" and "''uid'' \<in> set (columns d)"
  shows "team_of d u =
     Inr (d\<lparr>rows := filter (\<lambda>row. field d ''manager'' row = StrV u
                          \<or> field d ''uid'' row = StrV u
                          \<or> field d ''manager'' row \<in>
                              set (map (field d ''uid'')
                                     (filter (\<lambda>x. field d ''manager'' x = StrV u) (rows d))))
                    (rows d)\<rparr>)"
proof -
  let ?dr = "map (field d ''uid'') (filter (\<lambda>x. field d ''manager'' x = StrV u) (rows d))"
  have dr: "select (series_eq (map (field d ''manager'') (rows d)) u) (map (field d ''uid'') (rows d)) = ?dr"
    by (simp add: series_eq_map select_map)
  have empty: "?dr = [] \<Longrightarrow> (\<lambda>row. field d ''manager'' row \<in> set ?dr) = (\<lambda>row. False)"
    by simp
  show ?thesis
    unfolding team_of_def getcol_field[OF assms(1)] getcol_field[OF assms(2)]
    apply (simp only: sum.case Let_def dr)
    apply (cases "?dr = []")
     apply (simp add: series_eq_map series_or_map select_rows_def select_same)
    apply (simp add: series_eq_map series_or_map isin_map select_rows_def select_same disj_assoc)
    done
qed

lemma set_ints_of: "set (ints_of cs) = {n. IntV n \<in> set cs}"
  by (induction cs rule: ints_of.induct) auto

lemma set_strs_of: "set (strs_of cs) = {s. StrV s \<in> set cs}"
  by (induction cs rule: strs_of.induct) auto

lemma distinct_ints_of: "distinct cs \<Longrightarrow> distinct (ints_of cs)"
  by (induction cs rule: ints_of.induct) (auto simp: set_ints_of)

lemma distinct_strs_of: "distinct cs \<Longrightarrow> distinct (strs_of cs)"
  by (induction cs rule: strs_of.induct) (auto simp: set_strs_of)

lemma set_sort_cells: "set (sort_cells cs) = {c \<in> set cs. \<not> isna c}"
proof (rule set_eqI)
  fix c show "c \<in> set (sort_cells cs) \<longleftrightarrow> c \<in> {c \<in> set cs. \<not> isna c}"
    by (cases c) (auto simp: sort_cells_def set_ints_of set_strs_of)
qed

lemma distinct_sort_cells: "distinct cs \<Longrightarrow> distinct (sort_cells cs)"
  by (auto simp: sort_cells_def distinct_map inj_on_def distinct_ints_of distinct_strs_of)

lemma set_group_keys: "set (group_keys col) = {c \<in> set col. \<not> isna c}"
  by (auto simp: group_keys_def set_sort_cells)

lemma distinct_group_keys: "distinct (group_keys col)"
  by (simp add: group_keys_def distinct_sort_cells)

lemma count_list_filter:
  "count_list (filter P xs) v = (if P v then count_list xs v else 0)"
  by (induction xs) auto

lemma fold_max_ge: "(a::nat) \<le> fold max xs a"
  by (induction xs arbitrary: a) (auto intro: order_trans[OF max.cobounded2])

lemma fold_max_upper: "x \<in> set xs \<Longrightarrow> (x::nat) \<le> fold max xs a"
proof (induction xs arbitrary: a)
  case Nil then show ?case by simp
next
  case (Cons y ys)
  show ?case
  proof (cases "x = y")
    case True
    have "y \<le> max y a" by simp
    also have "\<dots> \<le> fold max ys (max y a)" by (rule fold_max_ge)
    finally show ?thesis using True by simp
  next
    case False
    with Cons show ?thesis by simp
  qed
qed

lemma fold_max_mem: "fold max xs (a::nat) = a \<or> fold max xs a \<in> set xs"
proof (induction xs arbitrary: a)
  case Nil then show ?case by simp
next
  case (Cons y ys)
  from Cons.IH[of "max y a"] show ?case by (auto simp: max_def split: if_splits)
qed

lemma mode_facts:
  assumes "\<exists>v \<in> set s. \<not> isna v"
  shows "mode s \<noteq> [] \<and>
         (\<forall>m \<in> set (mode s). m \<in> set s \<and> \<not> isna m \<and>
              (\<forall>v. \<not> isna v \<longrightarrow> count_list s v \<le> count_list s m))"
proof -
  define vs where "vs = filter (\<lambda>c. \<not> isna c) s"
  define ks where "ks = rev (remdups (rev vs))"
  define top where "top = fold max (map (count_list vs) ks) 0"
  define best where "best = filter (\<lambda>k. count_list vs k = top) ks"
  have setks: "set ks = set vs" by (simp add: ks_def)
  have vs_ne: "vs \<noteq> []" using assms by (auto simp: vs_def filter_empty_conv)
  then obtain k0 where k0: "k0 \<in> set ks" using setks by (cases vs) auto
  then have "count_list vs k0 \<noteq> 0" using setks by (simp add: count_list_0_iff)
  then have "count_list vs k0 > 0" by simp
  moreover have "count_list vs k0 \<le> top"
    unfolding top_def using k0 by (intro fold_max_upper) simp
  ultimately have "top \<noteq> 0" by simp
  with fold_max_mem[of "map (count_list vs) ks" 0]
  have "top \<in> set (map (count_list vs) ks)" by (simp add: top_def)
  then have best_ne: "best \<noteq> []" by (auto simp: best_def filter_empty_conv)
  have best_ok: "m \<in> set s \<and> \<not> isna m \<and> (\<forall>v. \<not> isna v \<longrightarrow> count_list s v \<le> count_list s m)"
    if m: "m \<in> set best" for m
  proof -
    from m have mk: "m \<in> set ks" and mt: "count_list vs m = top" by (auto simp: best_def)
    from mk setks have mv: "m \<in> set s" "\<not> isna m" by (auto simp: vs_def)
    have "count_list s v \<le> count_list s m" if v: "\<not> isna v" for v
    proof (cases "v \<in> set vs")
      case True
      then have "count_list vs v \<le> top"
        unfolding top_def using setks by (intro fold_max_upper) simp
      with mt v mv show ?thesis by (simp add: vs_def count_list_filter)
    next
      case False
      then have "count_list vs v = 0" by (simp add: count_list_0_iff)
      with v show ?thesis by (simp add: vs_def count_list_filter)
    qed
    with mv show ?thesis by simp
  qed
  have nona: "\<forall>c \<in> set best. \<not> isna c" using best_ok by simp
  have mode_eq: "mode s = (if ints_of best = [] \<or> strs_of best = [] then sort_cells best else best)"
    by (simp add: mode_def Let_def vs_def ks_def top_def best_def)
  have "set (mode s) = set best"
    using nona by (auto simp: mode_eq set_sort_cells)
  with best_ne best_ok show ?thesis by (metis set_empty)
qed

lemma mode_all_missing: "\<forall>v \<in> set s. isna v \<Longrightarrow> mode s = []"
proof -
  assume "\<forall>v \<in> set s. isna v"
  then have "filter (\<lambda>c. \<not> isna c) s = []" by (simp add: filter_empty_conv)
  then show ?thesis by (simp add: mode_def sort_cells_def)
qed

lemma common_seniority_facts:
  "(if \<forall>v \<in> set s. isna v then common_seniority s = StrV ''Unknown''
    else common_seniority s \<in> set s \<and> \<not> isna (common_seniority s) \<and>
         (\<forall>v. \<not> isna v \<longrightarrow> count_list s v \<le> count_list s (common_seniority s)))"
proof (cases "\<forall>v \<in> set s. isna v")
  case True
  then show ?thesis by (simp add: common_seniority_def mode_all_missing)
next
  case False
  then have "\<exists>v \<in> set s. \<not> isna v" by simp
  from mode_facts[OF this] obtain m ms where ms: "mode s = m # ms"
    and "m \<in> set s \<and> \<not> isna m \<and> (\<forall>v. \<not> isna v \<longrightarrow> count_list s v \<le> count_list s m)"
    by (cases "mode s") auto
  with False show ?thesis by (auto simp: common_seniority_def)
qed

lemma dept_stats_rows:
  assumes "''department'' \<in> set (columns d)" and "''uid'' \<in> set (columns d)"
    and "''seniority_level'' \<in> set (columns d)"
  shows "dept_stats d =
     Inr \<lparr>columns = [''Department'', ''Team_Size'', ''Common_Seniority''],
          rows = zip [0 ..< length (group_keys (map (field d ''department'') (rows d)))]
                   (map (\<lambda>k. [k,
                        IntV (count_notna (map (field d ''uid'')
                               (filter (\<lambda>x. field d ''department'' x = k) (rows d)))),
                        common_seniority (map (field d ''seniority_level'')
                               (filter (\<lambda>x. field d ''department'' x = k) (rows d)))])
                      (group_keys (map (field d ''department'') (rows d)))),
          attrs = None\<rparr>"
proof -
  have m: "map (\<lambda>c. c = k) (map (field d ''department'') (rows d))
           = map (\<lambda>x. field d ''department'' x = k) (rows d)" for k
    by simp
  show ?thesis
    unfolding dept_stats_def getcol_field[OF assms(1)] getcol_field[OF assms(2)]
      getcol_field[OF assms(3)]
    by (simp only: sum.case Let_def m select_map length_map)
qed

lemma map_zip_snd:
  "length xs = length ys \<Longrightarrow> map (\<lambda>row. F (snd row)) (zip xs ys) = map F ys"
  by (induction xs ys rule: list_induct2) auto

lemma mask_loop_frame:
  "mask_loop pick h m cols = (e, h') \<Longrightarrow>
     length h' = length h \<and> (\<forall>a. a \<noteq> m \<longrightarrow> h' ! a = h ! a)"
proof (induction cols arbitrary: h)
  case Nil
  then show ?case by simp
next
  case (Cons column rest)
  show ?case
  proof (cases "pick column")
    case None
    with Cons show ?thesis by simp
  next
    case (Some f)
    show ?thesis
    proof (cases "getcol (h ! m) column")
      case (Inl e1)
      with Some Cons.prems show ?thesis by simp
    next
      case (Inr s)
      show ?thesis
      proof (cases "apply_series f s")
        case (Inl e2)
        with Some Inr Cons.prems show ?thesis by simp
      next
        case (Inr vs)
        with Some \<open>getcol (h ! m) column = Inr s\<close> Cons.prems
        have "mask_loop pick (h[m := setcol (h ! m) column vs]) m rest = (e, h')" by simp
        from Cons.IH[OF this] show ?thesis by simp
      qed
    qed
  qed
qed

lemma mask_loop_prefix:
  assumes "mask_loop pick (h @ [d]) (length h) cols = (e, h')"
  shows "length h' = Suc (length h) \<and> take (length h) h' = h"
proof -
  from mask_loop_frame[OF assms]
  have len: "length h' = Suc (length h)" and
       same: "\<forall>a. a \<noteq> length h \<longrightarrow> h' ! a = (h @ [d]) ! a" by simp_all
  have "take (length h) h' = h"
  proof (rule nth_equalityI)
    show "length (take (length h) h') = length h" using len by simp
  next
    fix i assume "i < length (take (length h) h')"
    then have i: "i < length h" by simp
    then show "take (length h) h' ! i = h ! i" using same by (simp add: nth_append)
  qed
  with len show ?thesis by simp
qed

lemma apply_data_masking_frame:
  assumes "apply_data_masking h df user_role = (res, h')"
  shows "take (length h) h' = h \<and>
         (\<forall>r. res = Inr r \<longrightarrow>
            (if user_role = ''admin'' then r = df \<and> h' = h
             else r = length h \<and> r < length h'))"
proof (cases "user_role = ''admin''")
  case True
  with assms show ?thesis by (auto simp: apply_data_masking_def)
next
  case False
  note na = False
  show ?thesis
  proof (cases "user_role \<in> set [''viewer'', ''auditor'']")
    case True
    obtain e h2 where L: "mask_loop viewer_mask (h @ [h ! df]) (length h) (columns (h ! df)) = (e, h2)"
      by (cases "mask_loop viewer_mask (h @ [h ! df]) (length h) (columns (h ! df))") auto
    from mask_loop_prefix[OF L] have P: "length h2 = Suc (length h)" "take (length h) h2 = h" by simp_all
    from assms na True L have "h' = h2 \<and> (\<forall>r. res = Inr r \<longrightarrow> r = length h)"
      by (cases e) (auto simp: apply_data_masking_def copy_df_def new_object_def)
    with P na show ?thesis by simp
  next
    case False
    note nv = False
    show ?thesis
    proof (cases "user_role = ''manager''")
      case True
      obtain e h2 where L: "mask_loop manager_mask (h @ [h ! df]) (length h) (columns (h ! df)) = (e, h2)"
        by (cases "mask_loop manager_mask (h @ [h ! df]) (length h) (columns (h ! df))") auto
      from mask_loop_prefix[OF L] have P: "length h2 = Suc (length h)" "take (length h) h2 = h" by simp_all
      from assms na nv True L have "h' = h2 \<and> (\<forall>r. res = Inr r \<longrightarrow> r = length h)"
        by (cases e) (auto simp: apply_data_masking_def copy_df_def new_object_def)
      with P na show ?thesis by simp
    next
      case False
      with assms na nv show ?thesis
        by (auto simp: apply_data_masking_def copy_df_def new_object_def)
    qed
  qed
qed

lemma filter_frame:
  assumes "filter_data_by_access_level h df user_role ctx = (res, h')"
  shows "take (length h) h' = h \<and>
         (\<forall>r. res = Inr r \<longrightarrow>
            (if user_role = ''admin'' then r = df \<and> h' = h
             else length h \<le> r \<and> r < length h'))"
  using assms
  by (auto simp: filter_data_by_access_level_def copy_df_def new_object_def Let_def
           split: if_splits sum.splits)

section \<open>Claims about the policy engine\<close>

text \<open>
  C1, as the code has it. For the role \<open>viewer\<close>, a frame that has at least one row
  and the columns \<open>department\<close>, \<open>uid\<close> and \<open>seniority_level\<close> is collapsed into a new
  frame with the header \<open>Department, Team_Size, Common_Seniority\<close>, which is not the
  header of the input. It has exactly one row per department that occurs (missing
  departments left out); the row carries the number of rows of that department with a
  uid, and a most frequent seniority level of that department, or \<open>Unknown\<close> when the
  department has no seniority level at all.
\<close>

theorem viewer_aggregate:
  assumes "df < length h"
    and "rows (h ! df) \<noteq> []"
    and "''department'' \<in> set (columns (h ! df))"
    and "''uid'' \<in> set (columns (h ! df))"
    and "''seniority_level'' \<in> set (columns (h ! df))"
  shows "\<exists>r h'. filter_data_by_access_level h df ''viewer'' user_context = (Inr r, h')
           \<and> r < length h' \<and> r \<noteq> df
           \<and> columns (h' ! r) = [''Department'', ''Team_Size'', ''Common_Seniority'']
           \<and> columns (h' ! r) \<noteq> columns (h ! df)
           \<and> distinct (map (\<lambda>row. cell_at row 0) (rows (h' ! r)))
           \<and> set (map (\<lambda>row. cell_at row 0) (rows (h' ! r)))
               = {c \<in> set (map (field (h ! df) ''department'') (rows (h ! df))). \<not> isna c}
           \<and> (\<forall>row \<in> set (rows (h' ! r)).
                 length (snd row) = 3
               \<and> cell_at row 1 =
                   IntV (int (length (filter (\<lambda>x. field (h ! df) ''department'' x = cell_at row 0
                                               \<and> \<not> isna (field (h ! df) ''uid'' x))
                                        (rows (h ! df)))))
               \<and> (let s = map (field (h ! df) ''seniority_level'')
                             (filter (\<lambda>x. field (h ! df) ''department'' x = cell_at row 0)
                                (rows (h ! df)))
                  in if \<forall>v \<in> set s. isna v then cell_at row 2 = StrV ''Unknown''
                     else cell_at row 2 \<in> set s \<and> \<not> isna (cell_at row 2)
                        \<and> (\<forall>v. \<not> isna v \<longrightarrow> count_list s v \<le> count_list s (cell_at row 2))))"
proof -
  let ?d = "h ! df"
  let ?keys = "group_keys (map (field ?d ''department'') (rows ?d))"
  let ?grp = "\<lambda>k. filter (\<lambda>x. field ?d ''department'' x = k) (rows ?d)"
  let ?stat = "\<lambda>k. [k, IntV (count_notna (map (field ?d ''uid'') (?grp k))),
                     common_seniority (map (field ?d ''seniority_level'') (?grp k))]"
  let ?R = "\<lparr>columns = [''Department'', ''Team_Size'', ''Common_Seniority''],
             rows = zip [0 ..< length ?keys] (map ?stat ?keys), attrs = None\<rparr>"
  have run: "filter_data_by_access_level h df ''viewer'' user_context
             = (Inr (Suc (length h)), h @ [?d, ?R])"
    using assms dept_stats_rows[OF assms(3,4,5)]
    by (simp add: filter_data_by_access_level_def copy_df_def new_object_def)
  have R: "(h @ [?d, ?R]) ! Suc (length h) = ?R"
    by (simp add: nth_append)
  have firsts: "map (\<lambda>row. cell_at row 0) (rows ?R) = ?keys"
    using map_zip_snd[of "[0 ..< length ?keys]" "map ?stat ?keys"
            "\<lambda>cs. if 0 < length cs then cs ! 0 else NaN"]
    by (simp add: cell_at_def comp_def)
  have "''department'' \<notin> set [''Department'', ''Team_Size'', ''Common_Seniority'']"
    by simp
  moreover have "columns ?R = [''Department'', ''Team_Size'', ''Common_Seniority'']"
    by simp
  ultimately have neq: "columns ?R \<noteq> columns ?d"
    using assms(3) by metis
  have per_row: "length (snd row) = 3
      \<and> cell_at row 1 = IntV (int (length (filter (\<lambda>x. field ?d ''department'' x = cell_at row 0
                                               \<and> \<not> isna (field ?d ''uid'' x)) (rows ?d))))
      \<and> (let s = map (field ?d ''seniority_level'') (?grp (cell_at row 0))
         in if \<forall>v \<in> set s. isna v then cell_at row 2 = StrV ''Unknown''
            else cell_at row 2 \<in> set s \<and> \<not> isna (cell_at row 2)
               \<and> (\<forall>v. \<not> isna v \<longrightarrow> count_list s v \<le> count_list s (cell_at row 2)))"
    if "row \<in> set (rows ?R)" for row
  proof -
    from that obtain k where k: "snd row = ?stat k"
      by (auto simp: set_zip)
    have c0: "cell_at row 0 = k" and c2: "cell_at row 2 =
         common_seniority (map (field ?d ''seniority_level'') (?grp k))"
      and c1: "cell_at row 1 = IntV (count_notna (map (field ?d ''uid'') (?grp k)))"
      using k by (simp_all add: cell_at_def)
    have cnt: "count_notna (map (field ?d ''uid'') (?grp k))
         = int (length (filter (\<lambda>x. field ?d ''department'' x = k
                                  \<and> \<not> isna (field ?d ''uid'' x)) (rows ?d)))"
      by (simp add: count_notna_def filter_map comp_def conj_commute)
    show ?thesis
      unfolding c0 c1 c2 cnt Let_def
      using k common_seniority_facts[of "map (field ?d ''seniority_level'') (?grp k)"]
      by simp
  qed
  show ?thesis
    apply (rule exI[of _ "Suc (length h)"], rule exI[of _ "h @ [?d, ?R]"])
    apply (simp only: R)
    apply (intro conjI)
           apply (rule run)
          apply simp
    using assms(1) apply simp
        apply simp
       apply (rule neq)
      apply (simp only: firsts distinct_group_keys)
     apply (simp only: firsts set_group_keys)
    using per_row apply blast
    done
qed

theorem viewer_aggregate_witness:
  "0 < length [sample_org]
   \<and> rows ([sample_org] ! 0) \<noteq> []
   \<and> ''department'' \<in> set (columns ([sample_org] ! 0))
   \<and> ''uid'' \<in> set (columns ([sample_org] ! 0))
   \<and> ''seniority_level'' \<in> set (columns ([sample_org] ! 0))
   \<and> (\<exists>r h'. filter_data_by_access_level [sample_org] 0 ''viewer'' crizzo_context = (Inr r, h')
          \<and> columns (h' ! r) = [''Department'', ''Team_Size'', ''Common_Seniority'']
          \<and> columns (h' ! r) \<noteq> columns sample_org)"
proof -
  have h: "0 < length [sample_org]" "rows ([sample_org] ! 0) \<noteq> []"
    "''department'' \<in> set (columns ([sample_org] ! 0))"
    "''uid'' \<in> set (columns ([sample_org] ! 0))"
    "''seniority_level'' \<in> set (columns ([sample_org] ! 0))"
    by (simp_all add: sample_org_def)
  from viewer_aggregate[OF h, of crizzo_context] obtain r h' where
    "filter_data_by_access_level [sample_org] 0 ''viewer'' crizzo_context = (Inr r, h')"
    "columns (h' ! r) = [''Department'', ''Team_Size'', ''Common_Seniority'']"
    "columns (h' ! r) \<noteq> columns ([sample_org] ! 0)"
    by blast
  with h show ?thesis by auto
qed

text \<open>
  The claim C1 as stated fails in three places: an auditor receives a copy of every
  person row, a viewer receives one when the frame has no \<open>department\<close> column, and for
  a frame without rows the viewer's result keeps the header of the input.
\<close>

theorem viewer_auditor_aggregate_counterexample:
  "filter_data_by_access_level [sample_org] 0 ''auditor'' crizzo_context
     = (Inr 1, [sample_org, sample_org])
   \<and> filter_data_by_access_level [sample_roster] 0 ''viewer'' crizzo_context
     = (Inr 1, [sample_roster, sample_roster])
   \<and> filter_data_by_access_level [sample_org\<lparr>rows := []\<rparr>] 0 ''viewer'' crizzo_context
     = (Inr 1, [sample_org\<lparr>rows := []\<rparr>, sample_org\<lparr>rows := []\<rparr>])"
  by (simp add: filter_data_by_access_level_def copy_df_def new_object_def sample_org_def
        sample_roster_def)

text \<open>
  C2. For a frame with a \<open>manager\<close> and a \<open>uid\<close> column the manager filter returns a
  new frame with exactly those rows of the input whose manager cell is the principal's
  uid, whose uid cell is the principal's uid (the self row), or whose manager cell is
  the uid of a row that reports to the principal. A row whose manager lies outside the
  principal and the principal's direct reports, and that is not the self row, is never
  returned: the closure stops at depth two.
\<close>

theorem manager_two_levels:
  assumes "df < length h"
    and "''manager'' \<in> set (columns (h ! df))"
    and "''uid'' \<in> set (columns (h ! df))"
  shows "\<exists>r h'. filter_data_by_access_level h df ''manager'' user_context = (Inr r, h')
           \<and> r < length h' \<and> r \<noteq> df
           \<and> columns (h' ! r) = columns (h ! df)
           \<and> rows (h' ! r) =
               filter (\<lambda>row. field (h ! df) ''manager'' row = StrV (local_uid user_context)
                        \<or> field (h ! df) ''uid'' row = StrV (local_uid user_context)
                        \<or> field (h ! df) ''manager'' row \<in>
                             set (map (field (h ! df) ''uid'')
                                    (filter (\<lambda>x. field (h ! df) ''manager'' x
                                                   = StrV (local_uid user_context))
                                       (rows (h ! df)))))
                 (rows (h ! df))"
proof -
  let ?u = "local_uid user_context"
  have u: "(let user_email = (case user_context ''email'' of None \<Rightarrow> [] | Some e \<Rightarrow> e)
            in if CHR ''@'' \<in> set user_email then before_at user_email else []) = ?u"
    by (simp add: local_uid_def split: option.splits)
  from assms show ?thesis
    using team_of_rows[OF assms(2,3), of ?u] u
    by (simp add: filter_data_by_access_level_def copy_df_def new_object_def Let_def
          nth_append split: option.splits)
qed

theorem manager_two_levels_witness:
  "0 < length [sample_org]
   \<and> ''manager'' \<in> set (columns ([sample_org] ! 0))
   \<and> ''uid'' \<in> set (columns ([sample_org] ! 0))
   \<and> (\<exists>r h'. filter_data_by_access_level [sample_org] 0 ''manager'' crizzo_context = (Inr r, h')
          \<and> map fst (rows (h' ! r)) = [0, 1, 2])"
proof -
  have h: "0 < length [sample_org]" "''manager'' \<in> set (columns ([sample_org] ! 0))"
    "''uid'' \<in> set (columns ([sample_org] ! 0))"
    by (simp_all add: sample_org_def)
  from manager_two_levels[OF h, of crizzo_context] obtain r h' where
    run: "filter_data_by_access_level [sample_org] 0 ''manager'' crizzo_context = (Inr r, h')"
    and kept: "rows (h' ! r) =
       filter (\<lambda>row. field ([sample_org] ! 0) ''manager'' row = StrV (local_uid crizzo_context)
                \<or> field ([sample_org] ! 0) ''uid'' row = StrV (local_uid crizzo_context)
                \<or> field ([sample_org] ! 0) ''manager'' row \<in>
                     set (map (field ([sample_org] ! 0) ''uid'')
                            (filter (\<lambda>x. field ([sample_org] ! 0) ''manager'' x
                                           = StrV (local_uid crizzo_context))
                               (rows ([sample_org] ! 0)))))
         (rows ([sample_org] ! 0))"
    by blast
  have "map fst (rows (h' ! r)) = [0, 1, 2]"
    unfolding kept
    by (simp add: sample_org_def crizzo_context_def field_def local_uid_def cell_at_def
          before_at_def)
  with run have "filter_data_by_access_level [sample_org] 0 ''manager'' crizzo_context = (Inr r, h')
      \<and> map fst (rows (h' ! r)) = [0, 1, 2]"
    by simp
  then have "\<exists>r h'. filter_data_by_access_level [sample_org] 0 ''manager'' crizzo_context = (Inr r, h')
      \<and> map fst (rows (h' ! r)) = [0, 1, 2]"
    by (intro exI)
  with h show ?thesis by simp
qed

text \<open>
  A frame with a \<open>manager\<close> column but no \<open>uid\<close> column makes the manager branch raise
  \<open>KeyError\<close>; no row is returned then.
\<close>

lemma manager_filter_needs_uid:
  assumes "''manager'' \<in> set (columns (h ! df))" and "''uid'' \<notin> set (columns (h ! df))"
  shows "fst (filter_data_by_access_level h df ''manager'' user_context) = Inl KeyError"
proof -
  have "team_of (h ! df) u = Inl KeyError" for u
    by (simp add: team_of_def getcol_field[OF assms(1)] getcol_missing[OF assms(2)])
  with assms(1) show ?thesis
    by (simp add: filter_data_by_access_level_def copy_df_def new_object_def Let_def)
qed

text \<open>
  C8. With the role \<open>admin\<close> the row filter and the column mask both return the frame
  they were given, and no frame in the store is changed.
\<close>

theorem admin_identity:
  "filter_data_by_access_level h df ''admin'' user_context = (Inr df, h)
   \<and> apply_data_masking h df ''admin'' = (Inr df, h)"
  by (simp add: filter_data_by_access_level_def apply_data_masking_def)

text \<open>
  C9, as the code has it. Neither the row filter nor the column mask changes a frame
  that existed before the call, whatever the role and whether or not the call raises:
  the store after the call starts with the store before it. For every role but
  \<open>admin\<close> a returned frame is an object created by the call; for \<open>admin\<close> the returned
  reference is the input itself.
\<close>

theorem policy_never_mutates_input:
  assumes "df < length h"
  shows "(\<forall>res h'. filter_data_by_access_level h df user_role user_context = (res, h') \<longrightarrow>
            h' ! df = h ! df \<and> take (length h) h' = h \<and>
            (\<forall>r. res = Inr r \<longrightarrow>
               (if user_role = ''admin'' then r = df
                else r \<noteq> df \<and> length h \<le> r \<and> r < length h')))
       \<and> (\<forall>res h'. apply_data_masking h df user_role = (res, h') \<longrightarrow>
            h' ! df = h ! df \<and> take (length h) h' = h \<and>
            (\<forall>r. res = Inr r \<longrightarrow>
               (if user_role = ''admin'' then r = df
                else r \<noteq> df \<and> length h \<le> r \<and> r < length h')))"
proof (intro conjI allI impI)
  fix res h'
  assume run: "filter_data_by_access_level h df user_role user_context = (res, h')"
  from filter_frame[OF run] have pre: "take (length h) h' = h" by simp
  from pre assms show "h' ! df = h ! df" by (metis nth_take)
  from pre show "take (length h) h' = h" .
  fix r assume "res = Inr r"
  with filter_frame[OF run] assms
  show "if user_role = ''admin'' then r = df else r \<noteq> df \<and> length h \<le> r \<and> r < length h'"
    by (auto split: if_splits)
next
  fix res h'
  assume run: "apply_data_masking h df user_role = (res, h')"
  from apply_data_masking_frame[OF run] have pre: "take (length h) h' = h" by simp
  from pre assms show "h' ! df = h ! df" by (metis nth_take)
  from pre show "take (length h) h' = h" .
  fix r assume "res = Inr r"
  with apply_data_masking_frame[OF run] assms
  show "if user_role = ''admin'' then r = df else r \<noteq> df \<and> length h \<le> r \<and> r < length h'"
    by (auto split: if_splits)
qed

theorem policy_never_mutates_input_witness:
  "0 < length [sample_org]
   \<and> snd (apply_data_masking [sample_org] 0 ''viewer'') ! 0 = sample_org
   \<and> fst (apply_data_masking [sample_org] 0 ''viewer'') = Inr 1
   \<and> field (snd (apply_data_masking [sample_org] 0 ''viewer'') ! 1) ''email''
        (rows (snd (apply_data_masking [sample_org] 0 ''viewer'') ! 1) ! 1)
      = StrV ''y****g@redhat.com''"
proof -
  have h: "0 < length [sample_org]" by simp
  have run: "apply_data_masking [sample_org] 0 ''viewer''
     = (fst (apply_data_masking [sample_org] 0 ''viewer''),
        snd (apply_data_masking [sample_org] 0 ''viewer''))" by simp
  from policy_never_mutates_input[OF h, of "''viewer''" crizzo_context] run
  have keep: "snd (apply_data_masking [sample_org] 0 ''viewer'') ! 0 = [sample_org] ! 0"
    by blast
  have masked: "apply_data_masking [sample_org] 0 ''viewer''
     = (Inr 1, [sample_org, sample_org\<lparr>rows :=
          [(0, [StrV ''crizzo'', StrV ''jlaska'', StrV ''Mgmt'', StrV ''Senior'',
                StrV ''c****o@redhat.com'']),
           (1, [StrV ''ychang'', StrV ''crizzo'', StrV ''QE'', StrV ''Senior'',
                StrV ''y****g@redhat.com'']),
           (2, [StrV ''yisun'', StrV ''ychang'', StrV ''QE'', StrV ''Junior'',
                StrV ''y***n@redhat.com'']),
           (3, [StrV ''intern'', StrV ''yisun'', StrV ''QE'', StrV ''Junior'',
                StrV ''i****n@redhat.com'']),
           (4, [StrV ''other'', StrV ''jlaska'', StrV ''Sales'', StrV ''Junior'',
                StrV ''o***r@redhat.com''])]\<rparr>])"
    by (simp add: apply_data_masking_def copy_df_def new_object_def sample_org_def
          viewer_mask_def matches_any_def email_fields_def phone_fields_def
          employee_id_fields_def lower_def lower_char_def getcol_def setcol_def cell_at_def
          before_at_def after_at_def stars_def Let_def)
  from keep show ?thesis
    unfolding masked by (simp add: field_def cell_at_def sample_org_def)
qed

text \<open>
  The claim C9 as stated calls every result a copy. For an administrator both
  operations hand back the reference they received and create no object.
\<close>

theorem admin_result_is_input_counterexample:
  "fst (filter_data_by_access_level [sample_org] 0 ''admin'' crizzo_context) = Inr 0
   \<and> length (snd (filter_data_by_access_level [sample_org] 0 ''admin'' crizzo_context)) = 1
   \<and> fst (apply_data_masking [sample_org] 0 ''admin'') = Inr 0
   \<and> length (snd (apply_data_masking [sample_org] 0 ''admin'')) = 1"
  by (simp add: filter_data_by_access_level_def apply_data_masking_def)

text \<open>
  C10. When the frame has no \<open>manager\<close> column the manager filter keeps every row: the
  result is a new frame equal to the input, whoever the principal is.
\<close>

theorem manager_without_manager_column:
  assumes "df < length h" and "''manager'' \<notin> set (columns (h ! df))"
  shows "filter_data_by_access_level h df ''manager'' user_context
           = (Inr (length h), h @ [h ! df])
       \<and> (h @ [h ! df]) ! length h = h ! df
       \<and> length h \<noteq> df"
  using assms
  by (simp add: filter_data_by_access_level_def copy_df_def new_object_def Let_def)

theorem manager_without_manager_column_witness:
  "0 < length [sample_roster]
   \<and> ''manager'' \<notin> set (columns ([sample_roster] ! 0))
   \<and> filter_data_by_access_level [sample_roster] 0 ''manager'' crizzo_context
       = (Inr 1, [sample_roster, sample_roster])
   \<and> map (field sample_roster ''uid'') (rows sample_roster) = [StrV ''crizzo'', StrV ''other'']"
  using manager_without_manager_column[of 0 "[sample_roster]" crizzo_context]
  by (simp add: sample_roster_def field_def cell_at_def)

section \<open>Claims about authentication, export and audit\<close>

lemma sanitize_creates_object:
  "length h < length (snd (sanitize_export_data h now df export_format user_role))"
proof -
  let ?h1 = "h @ [h ! df]"
  let ?cols = "filter (matches_any internal_fields) (columns (?h1 ! length h))"
  obtain sd h2 where prep:
    "(if ?cols \<noteq> [] then new_object ?h1 (drop_columns (?h1 ! length h) ?cols)
      else (length h, ?h1)) = (sd, h2)"
    by (cases "if ?cols \<noteq> [] then new_object ?h1 (drop_columns (?h1 ! length h) ?cols)
               else (length h, ?h1)") auto
  then have len2: "length h < length h2"
    by (auto simp: new_object_def split: if_splits)
  obtain res h3 where m: "apply_data_masking h2 sd user_role = (res, h3)"
    by (cases "apply_data_masking h2 sd user_role") auto
  from apply_data_masking_frame[OF m] have "take (length h2) h3 = h2" by simp
  then have "length h2 \<le> length h3"
    by (metis length_take min.cobounded1)
  with len2 have len3: "length h < length h3" by simp
  show ?thesis
    using prep m len3
    by (cases res) (simp_all add: sanitize_export_data_def copy_df_def new_object_def Let_def)
qed

text \<open>
  The state check compares the first character of the state parameter with the stored
  state. When they differ the callback is refused and the session is left as it was,
  apart from the error message.
\<close>

lemma state_mismatch_rejected:
  assumes "query_params ''code'' = Some (c # cs)"
    and "query_params ''state'' = Some (s # ss)"
    and "Some [s] \<noteq> oauth_state w"
  shows "handle_callback idp w now query_params
           = (Inr None, st_error w ''Invalid OAuth state parameter'')"
  using assms
  by (simp add: handle_callback_def first_char_def exchange_code_for_tokens_def)

text \<open>
  So for a stored state that is not a single character, as every state made by
  \<open>get_authorization_url\<close> is, each callback with a code and a state is refused, the
  one that carries the stored state included.
\<close>

lemma stored_state_never_matches:
  assumes "query_params ''code'' = Some (c # cs)"
    and "query_params ''state'' = Some (s # ss)"
    and "oauth_state w = Some stored" and "length stored \<noteq> 1"
  shows "handle_callback idp w now query_params
           = (Inr None, st_error w ''Invalid OAuth state parameter'')"
proof -
  from assms(3,4) have "Some [s] \<noteq> oauth_state w" by auto
  from state_mismatch_rejected[OF assms(1,2) this] show ?thesis .
qed

text \<open>
  The path that returns a user session does erase the three entries. It can only be
  reached when the stored state is a single character.
\<close>

lemma accepted_callback_clears_pending_flow:
  "handle_callback sample_provider (pending_world\<lparr>oauth_state := Some ''S''\<rparr>) 1001
     genuine_callback
   = (Inr (Some \<lparr>s_email = ''demo@redhat.com'', s_name = ''Demo User'',
                  s_username = ''demo'', s_role = ''viewer'',
                  s_permissions = [''view_team'', ''view_reports''], s_groups = [],
                  sso_sub = ''u-demo'', session_start = 1001,
                  s_access_token = Some ''AT'', s_refresh_token = Some ''RT'',
                  expires_at = 1301\<rparr>),
      fresh_world)"
  by (simp add: handle_callback_def first_char_def exchange_code_for_tokens_def
        get_user_info_def verify_jwt_token_def create_user_session_def
        map_user_roles_def permissions_map_def empty_tokens_def empty_info_def
        empty_claims_def genuine_callback_def sample_provider_def
        pending_world_def fresh_world_def Let_def)

text \<open>
  C3 on the code. A callback whose state differs from the stored one is refused: no
  token is requested and no user session comes back. But the stored state, nonce and
  code verifier are still in the session afterwards: the refused callback does not
  erase the pending flow. A later callback that carries the stored state meets the same
  entries and is refused by the state check as well.
\<close>

theorem state_mismatch_leaves_pending_flow:
  "handle_callback sample_provider pending_world 1000 forged_callback
     = (Inr None, st_error pending_world ''Invalid OAuth state parameter'')
   \<and> oauth_state (st_error pending_world ''Invalid OAuth state parameter'') = Some ''S1''
   \<and> oauth_nonce (st_error pending_world ''Invalid OAuth state parameter'') = Some ''N1''
   \<and> oauth_code_verifier (st_error pending_world ''Invalid OAuth state parameter'')
       = Some ''V1''
   \<and> fst (handle_callback sample_provider
            (st_error pending_world ''Invalid OAuth state parameter'') 1001 genuine_callback)
       = Inr None"
proof (intro conjI)
  show "handle_callback sample_provider pending_world 1000 forged_callback
     = (Inr None, st_error pending_world ''Invalid OAuth state parameter'')"
    by (rule state_mismatch_rejected[where c="CHR ''c''" and cs="''1''"
              and s="CHR ''f''" and ss="''orged''"])
       (simp_all add: forged_callback_def pending_world_def fresh_world_def)
next
  show "oauth_state (st_error pending_world ''Invalid OAuth state parameter'') = Some ''S1''"
    by (simp add: st_error_def pending_world_def fresh_world_def)
next
  show "oauth_nonce (st_error pending_world ''Invalid OAuth state parameter'') = Some ''N1''"
    by (simp add: st_error_def pending_world_def fresh_world_def)
next
  show "oauth_code_verifier (st_error pending_world ''Invalid OAuth state parameter'')
       = Some ''V1''"
    by (simp add: st_error_def pending_world_def fresh_world_def)
next
  have "handle_callback sample_provider
          (st_error pending_world ''Invalid OAuth state parameter'') 1001 genuine_callback
        = (Inr None, st_error (st_error pending_world ''Invalid OAuth state parameter'')
                       ''Invalid OAuth state parameter'')"
    by (rule stored_state_never_matches[where c="CHR ''c''" and cs="''1''"
              and s="CHR ''S''" and ss="''1''" and stored="''S1''"])
       (simp_all add: genuine_callback_def st_error_def pending_world_def fresh_world_def)
  then show "fst (handle_callback sample_provider
            (st_error pending_world ''Invalid OAuth state parameter'') 1001 genuine_callback)
       = Inr None"
    by simp
qed

text \<open>
  C4 on the code. \<open>login_form\<close> leaves the audit log as it found it, whatever was
  submitted: neither an accepted nor a rejected login writes a record. The rejected
  login of the demo user with a wrong password is an instance.
\<close>

theorem login_form_writes_no_audit_record:
  "audit_log (login_form cfg w now submitted) = audit_log w
   \<and> \<not> check_password ''demo@redhat.com'' ''wrong''
   \<and> audit_log (login_form default_config fresh_world 0
                   (Some (''demo@redhat.com'', ''wrong''))) = []"
proof (intro conjI)
  show "audit_log (login_form cfg w now submitted) = audit_log w"
    by (cases submitted)
       (auto simp: login_form_def st_error_def st_success_def Let_def)
next
  show "\<not> check_password ''demo@redhat.com'' ''wrong''"
    by (simp add: check_password_def demo_passwords_def)
next
  show "audit_log (login_form default_config fresh_world 0
                   (Some (''demo@redhat.com'', ''wrong''))) = []"
    by (simp add: login_form_def check_password_def demo_passwords_def st_error_def
          fresh_world_def)
qed

text \<open>
  C5. When the permissions of the session's user do not include \<open>export_data\<close>, the
  export stops at the permission check: an error message is shown, nothing is offered
  for download, the audit log is unchanged (so no \<open>DATA_EXPORT\<close> record), and the store
  of frames is unchanged, whereas any run of \<open>sanitize_export_data\<close> would have added a
  frame to it.
\<close>

theorem export_denied_without_permission:
  assumes "''export_data'' \<notin>
             set (case session_user w of None \<Rightarrow> [] | Some u \<Rightarrow> permissions u)"
  shows "create_secure_export w h now df export_format user_role
           = (None, w\<lparr>screen := screen w @
                        [UiError ''You don't have permission to export data'']\<rparr>, h)
       \<and> audit_log (fst (snd (create_secure_export w h now df export_format user_role)))
           = audit_log w
       \<and> length h < length (snd (sanitize_export_data h now df export_format user_role))"
  using assms sanitize_creates_object[of h now df export_format user_role]
  by (simp add: create_secure_export_def check_data_access_permission_def
        permission_map_def st_error_def)

theorem export_denied_without_permission_witness:
  "''export_data'' \<notin>
      set (case session_user viewer_world of None \<Rightarrow> [] | Some u \<Rightarrow> permissions u)
   \<and> create_secure_export viewer_world [sample_org] 5 0 ''csv'' ''viewer''
       = (None, viewer_world\<lparr>screen :=
                   [UiError ''You don't have permission to export data'']\<rparr>, [sample_org])"
proof -
  have h: "''export_data'' \<notin>
      set (case session_user viewer_world of None \<Rightarrow> [] | Some u \<Rightarrow> permissions u)"
    by (simp add: viewer_world_def fresh_world_def authorized_users_def)
  have "screen viewer_world = []"
    by (simp add: viewer_world_def fresh_world_def)
  with export_denied_without_permission[OF h, of "[sample_org]" 5 0 "''csv''" "''viewer''"] h
  show ?thesis by simp
qed

text \<open>
  C6. A session token whose \<open>exp\<close> is not after the current time is refused by
  \<open>verify_session_token\<close>, whichever key it was signed with, the server's own included.
\<close>

theorem expired_token_fails_verification:
  assumes "p_exp payload = Some e" and "e \<le> now"
  shows "fst (verify_session_token cfg w now (Jws key alg payload)) = None"
  using assms
  by (auto simp: verify_session_token_def jwt_decode_def
           split: option.splits sum.splits jwt_error.splits)

theorem expired_token_fails_verification_witness:
  "p_exp \<lparr>p_email = Some ''demo@redhat.com'', p_exp = Some 3600, p_iat = Some 0\<rparr> = Some 3600
   \<and> (3600::int) \<le> 4000
   \<and> create_session_token default_config 0 ''demo@redhat.com''
       = Jws (secret_key default_config) ''HS256''
           \<lparr>p_email = Some ''demo@redhat.com'', p_exp = Some 3600, p_iat = Some 0\<rparr>
   \<and> fst (verify_session_token default_config fresh_world 4000
            (create_session_token default_config 0 ''demo@redhat.com'')) = None
   \<and> fst (verify_session_token default_config fresh_world 3599
            (create_session_token default_config 0 ''demo@redhat.com''))
       = authorized_users ''demo@redhat.com''"
proof -
  let ?p = "\<lparr>p_email = Some ''demo@redhat.com'', p_exp = Some 3600, p_iat = Some 0\<rparr>"
  have tok: "create_session_token default_config 0 ''demo@redhat.com''
       = Jws (secret_key default_config) ''HS256'' ?p"
    by (simp add: create_session_token_def default_config_def)
  have h1: "p_exp ?p = Some 3600" by simp
  have h2: "(3600::int) \<le> 4000" by simp
  have late: "fst (verify_session_token default_config fresh_world 4000
            (Jws (secret_key default_config) ''HS256'' ?p)) = None"
    by (rule expired_token_fails_verification[OF h1 h2])
  have early: "fst (verify_session_token default_config fresh_world 3599
            (Jws (secret_key default_config) ''HS256'' ?p))
       = authorized_users ''demo@redhat.com''"
    by (simp add: verify_session_token_def jwt_decode_def authorized_users_def)
  from tok late early show ?thesis by simp
qed

end
